theory Spec2Isabelle
  imports Main
begin

section \<open>Python values used by the sources\<close>

text \<open>
  Strings are lists of characters; every character stands for one code point below 256.
  Exceptions are values: a function that may raise returns \<open>error + 'a\<close>, with
  \<open>Inl\<close> carrying the exception.  The built-in exceptions are identified by their
  class, the application's own exception (built by \<open>make_error\<close> in the route
  layer) by its kind and the status code it carries.
\<close>

datatype samfetch_error =
    DEVICE_NOT_FOUND
  | FIRMWARE_LIST_EMPTY
  | FIRMWARE_CANT_PARSE
  | UNAUTHORIZED
  | UNKNOWN_ERROR
  | MAX_RETRY_EXCEEDED
  | KIES_SERVER_ERROR
  | KIES_SERVER_OUTER_ERROR
  | RANGE_HEADER_INVALID

datatype error =
    ValueError
  | IndexError
  | TypeError
  | AttributeError
  | XMLParseError
  | SamfetchException samfetch_error int

definition and_then :: "error + 'a \<Rightarrow> ('a \<Rightarrow> error + 'b) \<Rightarrow> error + 'b" where
  "and_then m f = (case m of Inl e \<Rightarrow> Inl e | Inr x \<Rightarrow> f x)"

definition ord :: "char \<Rightarrow> int" where
  "ord c = int (of_char c)"

text \<open>\<open>str.isspace\<close> on the code points below 256 (what \<open>str.strip()\<close> removes).\<close>

definition is_space :: "char \<Rightarrow> bool" where
  "is_space c = (of_char c \<in> set [9, 10, 11, 12, 13, 28, 29, 30, 31, 32, 133, 160 :: nat])"

definition strip :: "string \<Rightarrow> string" where
  "strip s = rev (dropWhile is_space (rev (dropWhile is_space s)))"

definition removeprefix :: "string \<Rightarrow> string \<Rightarrow> string" where
  "removeprefix p s = (if take (length p) s = p then drop (length p) s else s)"

text \<open>\<open>s.split(sep, maxsplit=1)\<close> for a one-character separator.\<close>

definition split_once :: "char \<Rightarrow> string \<Rightarrow> string list" where
  "split_once sep s =
     (if sep \<in> set s
      then [takeWhile (\<lambda>c. c \<noteq> sep) s, tl (dropWhile (\<lambda>c. c \<noteq> sep) s)]
      else [s])"

text \<open>\<open>s.split(sep)\<close> for a one-character separator: never an empty list.\<close>

fun split :: "char \<Rightarrow> string \<Rightarrow> string list" where
  "split sep [] = [[]]"
| "split sep (c # cs) =
     (if c = sep then [] # split sep cs
      else (case split sep cs of
              [] \<Rightarrow> [[c]]
            | w # ws \<Rightarrow> (c # w) # ws))"

fun join :: "string \<Rightarrow> string list \<Rightarrow> string" where
  "join sep [] = []"
| "join sep [x] = x"
| "join sep (x # y # ys) = x @ sep @ join sep (y # ys)"

text \<open>\<open>s.count(c)\<close> for a one-character argument.\<close>

definition count :: "string \<Rightarrow> char \<Rightarrow> nat" where
  "count s c = length (filter (\<lambda>d. d = c) s)"

text \<open>Indexing \<open>xs[i]\<close>: a negative index counts from the end, out of range raises.\<close>

definition getitem :: "'a list \<Rightarrow> int \<Rightarrow> error + 'a" where
  "getitem xs i =
     (if 0 \<le> i \<and> i < int (length xs) then Inr (xs ! nat i)
      else if i < 0 \<and> - int (length xs) \<le> i then Inr (xs ! nat (int (length xs) + i))
      else Inl IndexError)"

text \<open>The slice \<open>s[-n:]\<close> for \<open>n > 0\<close>: the last \<open>n\<close> items, or all of a shorter list.\<close>

definition last_n :: "nat \<Rightarrow> 'a list \<Rightarrow> 'a list" where
  "last_n n xs = drop (length xs - n) xs"

text \<open>\<open>s.index(c)\<close> for a one-character argument: the first position, or ValueError.\<close>

fun find_index :: "'a list \<Rightarrow> 'a \<Rightarrow> nat option" where
  "find_index [] c = None"
| "find_index (x # xs) c = (if x = c then Some 0 else map_option Suc (find_index xs c))"

definition index :: "string \<Rightarrow> char \<Rightarrow> error + int" where
  "index s c = (case find_index s c of None \<Rightarrow> Inl ValueError | Some i \<Rightarrow> Inr (int i))"

subsection \<open>\<open>int(s)\<close> on a string\<close>

text \<open>
  \<open>int\<close> skips white space at both ends (a smaller set than \<open>str.strip\<close>:
  the separators \<open>0x1C\<close> to \<open>0x1F\<close> are not skipped), reads an optional sign and
  then decimal digits, where single underscores may stand between two digits.
  Anything else raises ValueError.  (The interpreter's configurable limit on the
  number of digits of a literal is not part of the model.)
\<close>

definition int_space :: "char \<Rightarrow> bool" where
  "int_space c = (of_char c \<in> set [9, 10, 11, 12, 13, 32, 133, 160 :: nat])"

definition is_digit :: "char \<Rightarrow> bool" where
  "is_digit c = (48 \<le> (of_char c :: nat) \<and> (of_char c :: nat) \<le> 57)"

fun digits_ok :: "string \<Rightarrow> bool" where
  "digits_ok [] = False"
| "digits_ok [c] = is_digit c"
| "digits_ok (c # d # cs) =
     (is_digit c \<and> (if d = CHR ''_'' then digits_ok cs else digits_ok (d # cs)))"

definition digits_val :: "string \<Rightarrow> int" where
  "digits_val s = foldl (\<lambda>a c. 10 * a + (ord c - 48)) 0 (filter (\<lambda>c. c \<noteq> CHR ''_'') s)"

definition unsigned_int :: "string \<Rightarrow> error + int" where
  "unsigned_int s = (if digits_ok s then Inr (digits_val s) else Inl ValueError)"

definition py_int :: "string \<Rightarrow> error + int" where
  "py_int s =
     (case rev (dropWhile int_space (rev (dropWhile int_space s))) of
        [] \<Rightarrow> Inl ValueError
      | c # cs \<Rightarrow>
          if c = CHR ''-'' then and_then (unsigned_int cs) (\<lambda>n. Inr (- n))
          else if c = CHR ''+'' then unsigned_int cs
          else unsigned_int (c # cs))"

section \<open>\<open>samfetch/kies.py\<close>: \<open>KiesUtils\<close>\<close>

text \<open>
  \<open>parse_firmware\<close>: an empty string raises \<open>ValueError("Invalid firmware format.")\<close>;
  otherwise the string is split at every slash, a list of three gets its first item
  appended, and an empty third item is replaced by the first.  Reading \<open>l[2]\<close> of a
  list of one or two items raises IndexError.
\<close>

definition parse_firmware :: "string \<Rightarrow> error + string" where
  "parse_firmware firmware =
     (if firmware \<noteq> [] then
        (let l = split CHR ''/'' firmware;
             l = (if length l = 3 then l @ [l ! 0] else l)
         in and_then (getitem l 2) (\<lambda>third.
              let l = (if third = [] then l[2 := l ! 0] else l)
              in Inr (join ''/'' l)))
      else Inl ValueError)"

text \<open>
  \<open>parse_range_header\<close>: \<open>int(ran[0] or 0)\<close> is 0 for an empty string and the
  conversion of the string otherwise.
\<close>

definition int_or_zero :: "string \<Rightarrow> error + int" where
  "int_or_zero s = (if s = [] then Inr 0 else py_int s)"

definition parse_range_header :: "string \<Rightarrow> error + (int \<times> int)" where
  "parse_range_header header =
     (let ran = split_once CHR ''-'' (removeprefix ''bytes='' (strip header))
      in if length ran \<noteq> 2 then Inr (- 1, - 1)
         else and_then (int_or_zero (ran ! 0)) (\<lambda>a.
              and_then (int_or_zero (ran ! 1)) (\<lambda>b. Inr (a, b))))"

text \<open>
  \<open>read_firmware\<close>: the five results are the list \<open>result\<close> of the source, whose
  first two items stay \<open>None\<close> in the second branch.
\<close>

definition alphanumeric :: string where
  "alphanumeric = ''0123456789ABCDEFGHIJKLMNOPQRSTUVWXYZ''"

type_synonym build_info = "string option \<times> int option \<times> int \<times> int \<times> int"

definition read_firmware :: "string \<Rightarrow> error + build_info" where
  "read_firmware firmware =
     (if count firmware CHR ''/'' = 3 then
        (let pda = last_n 6 (split CHR ''/'' firmware ! 0)
         in and_then (getitem pda 0) (\<lambda>p0.
            if p0 \<in> set [CHR ''U'', CHR ''S''] then
              and_then (getitem pda 2) (\<lambda>p2.
              and_then (getitem pda 3) (\<lambda>p3.
              and_then (getitem pda 4) (\<lambda>p4.
              and_then (getitem pda 5) (\<lambda>p5.
              and_then (index alphanumeric p5) (\<lambda>rev_index.
                Inr (Some (take 2 pda),
                     Some (ord p2 - ord CHR ''A''),
                     (ord p3 - ord CHR ''R'') + 2018,
                     ord p4 - ord CHR ''A'',
                     rev_index))))))
            else
              and_then (getitem pda (- 3)) (\<lambda>q3.
              and_then (getitem pda (- 2)) (\<lambda>q2.
              and_then (getitem pda (- 1)) (\<lambda>q1.
              and_then (index alphanumeric q1) (\<lambda>rev_index.
                Inr (None,
                     None,
                     (ord q3 - ord CHR ''R'') + 2018,
                     ord q2 - ord CHR ''A'',
                     rev_index)))))))
      else Inl ValueError)"




record pda_info =
  bl :: "string option"
  date :: string
  it :: string


text \<open>
  \<open>join_path\<close>: every non-empty argument is stripped, its slashes and backslashes
  become spaces, it is stripped again and its spaces become slashes; the results are
  joined with slashes after the prefix \<open>/\<close>.
\<close>

definition replace_char :: "char \<Rightarrow> char \<Rightarrow> string \<Rightarrow> string" where
  "replace_char a b s = map (\<lambda>c. if c = a then b else c) s"

definition join_path :: "string list \<Rightarrow> string" where
  "join_path args =
     ''/'' @ join ''/''
       (map (\<lambda>p. replace_char CHR '' '' CHR ''/''
                  (strip (replace_char (CHR 0x5C) CHR '' ''
                    (replace_char CHR ''/'' CHR '' '' (strip p)))))
            (filter (\<lambda>p. p \<noteq> []) args))"

section \<open>\<open>samfetch/kies.py\<close>: \<open>KiesFirmwareList\<close>\<close>








section \<open>\<open>web/routes.py\<close>\<close>

subsection \<open>\<open>get_firmware_list\<close>\<close>

text \<open>
  The route receives the HTTP status of the manifest request and the parsed manifest.
  Each item of its reply has the keys \<open>firmware\<close> and \<open>pda\<close>; the key
  \<open>is_latest\<close> is set (to \<open>True\<close>) at index 0 only, so it is optional here.
\<close>

record firmware_item =
  firmware :: string
  is_latest :: "bool option"
  pda :: pda_info



subsection \<open>\<open>get_binary_details\<close>: the retry loop\<close>

text \<open>
  What the route sends and closes, in order.  A nonce request opens a fresh session;
  the binary-info request carries the device identity of the attempt.
\<close>

datatype net_event =
    NonceRequest
  | BinaryInfoRequest string
  | FileRequest string
  | DownloadRequest string "string option"
  | ClientClose






subsection \<open>\<open>download_binary\<close>\<close>

text \<open>
  The request: the query arguments \<open>decrypt\<close> and \<open>filename\<close>, the header
  \<open>Range\<close> (each may be missing) and the path segment with the file's name.
\<close>

record download_request =
  decrypt :: "string option"
  filename_arg :: "string option"
  range_header :: "string option"
  file_name :: string

text \<open>
  The reply to the file-registration request: its HTTP status and the protocol status
  \<open>KiesData.status_code\<close> reads from its body (which raises when the body has no
  integer there).
\<close>

record registration =
  http_status :: int
  kies_status :: "error + int"

text \<open>The reply to the ranged download request: its status and the two headers read.\<close>

record download_file =
  file_status :: int
  content_length :: "string option"
  content_range :: "string option"

text \<open>What the route passes to \<open>request.respond\<close>; the headers in insertion order.\<close>

record stream_response =
  headers :: "(string \<times> string) list"
  content_type :: string
  response_status :: int

definition removesuffix :: "string \<Rightarrow> string \<Rightarrow> string" where
  "removesuffix suffix s =
     (if suffix \<noteq> [] \<and> length suffix \<le> length s
         \<and> drop (length s - length suffix) s = suffix
      then take (length s - length suffix) s else s)"

text \<open>
  \<open>s.replace(old, "")\<close> for a non-empty \<open>old\<close>: the occurrences are removed from
  left to right without overlap; the counter says how many characters of an
  occurrence are still to be dropped.
\<close>

fun remove_sub_from :: "string \<Rightarrow> nat \<Rightarrow> string \<Rightarrow> string" where
  "remove_sub_from old n [] = []"
| "remove_sub_from old n (c # cs) =
     (if 0 < n then remove_sub_from old (n - 1) cs
      else if old \<noteq> [] \<and> take (length old) (c # cs) = old
        then remove_sub_from old (length old - 1) cs
      else c # remove_sub_from old 0 cs)"

definition remove_sub :: "string \<Rightarrow> string \<Rightarrow> string" where
  "remove_sub old s = remove_sub_from old 0 s"

definition response_headers ::
  "download_request \<Rightarrow> download_file \<Rightarrow> (string \<times> string) list" where
  "response_headers request file =
     (let decrypt_enabled = (decrypt request \<noteq> None);
          custom_filename =
            (case filename_arg request of
               None \<Rightarrow> None
             | Some f \<Rightarrow> Some (removesuffix ''.zip'' f @ ''.zip''));
          shown =
            (case custom_filename of
               Some f \<Rightarrow> f
             | None \<Rightarrow>
                 if \<not> decrypt_enabled then file_name request
                 else remove_sub ''.enc2'' (remove_sub ''.enc4'' (file_name request)));
          hs = [(''Content-Disposition'',
                   ''attachment; filename='' @ [CHR 0x22] @ shown @ [CHR 0x22]),
                (''Content-Length'',
                   (case content_length file of None \<Rightarrow> [] | Some n \<Rightarrow> n)),
                (''Accept-Ranges'', ''bytes''),
                (''Connection'', ''keep-alive'')];
          hs = (case content_range file of
                  None \<Rightarrow> hs
                | Some r \<Rightarrow> hs @ [(''Content-Range'', r)])
      in if decrypt_enabled then filter (\<lambda>h. fst h \<noteq> ''Content-Length'') hs else hs)"

text \<open>
  The route, from the nonce request to the call of \<open>request.respond\<close>.  The result
  pairs the requests sent (and the closing of the client) with the exception raised,
  or with the response opened.  What follows the opening of the response (the
  streaming by \<open>start_decryptor\<close>, from another module) is not part of the model.
\<close>

definition download_binary ::
  "download_request \<Rightarrow> registration \<Rightarrow> download_file \<Rightarrow>
   net_event list \<times> (error + stream_response)" where
  "download_binary request download_info file =
     (let decrypt_enabled = (decrypt request \<noteq> None);
          path = join_path [''/neofus/910/'', file_name request];
          evs = [NonceRequest, FileRequest path]
      in if http_status download_info = 200 then
           (case kies_status download_info of
              Inl e \<Rightarrow> (evs, Inl e)
            | Inr kies_code \<Rightarrow>
                if kies_code \<noteq> 200 then
                  (evs @ [ClientClose],
                   Inl (SamfetchException KIES_SERVER_ERROR kies_code))
                else
                  (case parse_range_header
                          (case range_header request of
                             None \<Rightarrow> ''bytes=0-''
                           | Some h \<Rightarrow> h) of
                     Inl e \<Rightarrow> (evs, Inl e)
                   | Inr (start_range, end_range) \<Rightarrow>
                       if start_range = - 1 \<or> end_range = - 1
                          \<or> (decrypt_enabled \<and> end_range \<noteq> 0) then
                         (evs @ [ClientClose],
                          Inl (SamfetchException RANGE_HEADER_INVALID 416))
                       else
                         (let custom_range =
                                (case range_header request of
                                   None \<Rightarrow> None
                                 | Some h \<Rightarrow> if h = [] then None else Some h);
                              evs = evs @ [DownloadRequest path custom_range]
                          in if file_status file \<notin> set [200, 206] then
                               (evs @ [ClientClose],
                                Inl (SamfetchException KIES_SERVER_ERROR
                                       (file_status file)))
                             else
                               (evs,
                                Inr \<lparr>headers = response_headers request file,
                                     content_type =
                                       (if decrypt_enabled then ''application/zip''
                                        else ''application/octet-stream''),
                                     response_status = file_status file\<rparr>))))
         else
           (evs,
            Inl (SamfetchException KIES_SERVER_OUTER_ERROR
                   (http_status download_info))))"

section \<open>Facts about the Python helpers\<close>

lemma and_then_simps:
  "and_then (Inl e) f = Inl e"
  "and_then (Inr x) f = f x"
  by (simp_all add: and_then_def)

lemma split_not_Nil: "split sep s \<noteq> []"
  by (induction s) (auto split: list.splits)

lemma split_no_sep: "sep \<notin> set a \<Longrightarrow> split sep a = [a]"
  by (induction a) auto

lemma split_append: "sep \<notin> set a \<Longrightarrow> split sep (a @ sep # rest) = a # split sep rest"
  by (induction a) auto


lemma join_split: "join [sep] (split sep s) = s"
proof (induction s)
  case Nil
  then show ?case by simp
next
  case (Cons c s)
  obtain w ws where ws: "split sep s = w # ws"
    using split_not_Nil [of sep s] by (cases "split sep s") auto
  show ?case
  proof (cases "c = sep")
    case True
    with Cons ws show ?thesis by simp
  next
    case False
    with Cons ws show ?thesis by (cases ws) auto
  qed
qed

lemma join_Cons: "ys \<noteq> [] \<Longrightarrow> join sep (x # ys) = x @ sep @ join sep ys"
  by (cases ys) auto

lemma getitem_2: "getitem (a # b # c # xs) 2 = Inr c"
  by (simp add: getitem_def)

lemma getitem_short: "length xs \<le> 2 \<Longrightarrow> getitem xs 2 = Inl IndexError"
  by (simp add: getitem_def Let_def)

lemma parse_firmware_3:
  assumes "CHR ''/'' \<notin> set a" "CHR ''/'' \<notin> set b" "CHR ''/'' \<notin> set c"
  shows "parse_firmware (a @ ''/'' @ b @ ''/'' @ c) =
         Inr (a @ ''/'' @ b @ ''/'' @ (if c = [] then a else c) @ ''/'' @ a)"
proof -
  have "split CHR ''/'' (a @ ''/'' @ b @ ''/'' @ c) = [a, b, c]"
    using assms by (simp add: split_append split_no_sep)
  then show ?thesis
    by (simp add: parse_firmware_def getitem_def and_then_simps)
qed

lemma parse_firmware_4plus:
  assumes "CHR ''/'' \<notin> set a" "CHR ''/'' \<notin> set b" "CHR ''/'' \<notin> set c"
  shows "parse_firmware (a @ ''/'' @ b @ ''/'' @ c @ ''/'' @ rest) =
         Inr (a @ ''/'' @ b @ ''/'' @ (if c = [] then a else c) @ ''/'' @ rest)"
proof -
  obtain w ws where ws: "split CHR ''/'' rest = w # ws"
    using split_not_Nil [of "CHR ''/''" rest] by (cases "split CHR ''/'' rest") auto
  have j: "join ''/'' (w # ws) = rest"
    using join_split [of "CHR ''/''" rest] ws by simp
  have s: "split CHR ''/'' (a @ ''/'' @ b @ ''/'' @ c @ ''/'' @ rest) = a # b # c # w # ws"
    using assms ws by (simp add: split_append)
  have "parse_firmware (a @ ''/'' @ b @ ''/'' @ c @ ''/'' @ rest) =
        Inr (join ''/'' (a # b # (if c = [] then a else c) # w # ws))"
    unfolding parse_firmware_def s by (simp add: getitem_def and_then_simps)
  also have "\<dots> = Inr (a @ ''/'' @ b @ ''/'' @ (if c = [] then a else c) @ ''/'' @ rest)"
    using j by (simp add: join_Cons)
  finally show ?thesis .
qed

lemma parse_firmware_1:
  assumes "CHR ''/'' \<notin> set a" "a \<noteq> []"
  shows "parse_firmware a = Inl IndexError"
  using assms by (simp add: parse_firmware_def split_no_sep getitem_def and_then_simps)

lemma parse_firmware_2:
  assumes "CHR ''/'' \<notin> set a" "CHR ''/'' \<notin> set b"
  shows "parse_firmware (a @ ''/'' @ b) = Inl IndexError"
  using assms by (simp add: parse_firmware_def split_append split_no_sep getitem_def and_then_simps)

lemma parse_firmware_ValueError_iff: "parse_firmware f = Inl ValueError \<longleftrightarrow> f = []"
  by (auto simp: parse_firmware_def getitem_def and_then_def Let_def split: if_splits)


lemma set_strip_subset: "set (strip s) \<subseteq> set s"
proof -
  have "set (dropWhile is_space (rev (dropWhile is_space s))) \<subseteq> set (dropWhile is_space s)"
    using set_dropWhileD [of _ is_space "rev (dropWhile is_space s)"] by auto
  moreover have "set (dropWhile is_space s) \<subseteq> set s"
    using set_dropWhileD [of _ is_space s] by auto
  ultimately show ?thesis by (auto simp: strip_def)
qed

lemma dropWhile_keeps: "c \<in> set s \<Longrightarrow> \<not> P c \<Longrightarrow> c \<in> set (dropWhile P s)"
  by (induction s) auto

lemma strip_keeps: "c \<in> set s \<Longrightarrow> \<not> is_space c \<Longrightarrow> c \<in> set (strip s)"
  by (simp add: strip_def dropWhile_keeps)

lemma set_removeprefix_subset: "set (removeprefix p s) \<subseteq> set s"
  by (auto simp: removeprefix_def dest: in_set_dropD)

lemma removeprefix_keeps:
  assumes "c \<in> set s" "c \<notin> set p"
  shows "c \<in> set (removeprefix p s)"
proof (cases "take (length p) s = p")
  case True
  have "set s = set (take (length p) s) \<union> set (drop (length p) s)"
    by (metis append_take_drop_id set_append)
  with assms True show ?thesis by (auto simp: removeprefix_def)
next
  case False
  with assms show ?thesis by (simp add: removeprefix_def)
qed

lemma dash_not_space: "\<not> is_space CHR ''-''"
  by (simp add: is_space_def)

lemma header_body_dash:
  "CHR ''-'' \<in> set (removeprefix ''bytes='' (strip h)) \<longleftrightarrow> CHR ''-'' \<in> set h"
  using set_strip_subset [of h] set_removeprefix_subset [of "''bytes=''" "strip h"]
    strip_keeps [of "CHR ''-''" h, OF _ dash_not_space]
    removeprefix_keeps [of "CHR ''-''" "strip h" "''bytes=''"]
  by auto

lemma digits_ok_chars: "digits_ok s \<Longrightarrow> c \<in> set s \<Longrightarrow> is_digit c \<or> c = CHR ''_''"
  by (induction s rule: digits_ok.induct) (auto split: if_splits)

lemma foldl_digits_nonneg:
  "0 \<le> a \<Longrightarrow> (\<And>c. c \<in> set s \<Longrightarrow> is_digit c) \<Longrightarrow>
   0 \<le> foldl (\<lambda>a c. 10 * a + (ord c - 48)) a s"
proof (induction s arbitrary: a)
  case Nil
  then show ?case by simp
next
  case (Cons c s)
  have "is_digit c" using Cons.prems(2) by simp
  then have "0 \<le> ord c - 48" by (simp add: is_digit_def ord_def)
  with Cons.prems(1) have "0 \<le> 10 * a + (ord c - 48)" by simp
  then show ?case using Cons.IH Cons.prems(2) by simp
qed

lemma digits_val_nonneg: "digits_ok s \<Longrightarrow> 0 \<le> digits_val s"
  unfolding digits_val_def
  by (rule foldl_digits_nonneg) (auto dest: digits_ok_chars)

lemma unsigned_int_nonneg: "unsigned_int s = Inr n \<Longrightarrow> 0 \<le> n"
  by (auto simp: unsigned_int_def digits_val_nonneg split: if_splits)

lemma py_int_nonneg:
  assumes "py_int s = Inr n" "CHR ''-'' \<notin> set s"
  shows "0 \<le> n"
proof -
  let ?t = "rev (dropWhile int_space (rev (dropWhile int_space s)))"
  have sub: "set ?t \<subseteq> set s"
    using set_dropWhileD [of _ int_space "rev (dropWhile int_space s)"]
      set_dropWhileD [of _ int_space s] by auto
  show ?thesis
  proof (cases ?t)
    case Nil
    with assms(1) show ?thesis by (simp add: py_int_def)
  next
    case (Cons c cs)
    with sub assms(2) have "c \<noteq> CHR ''-''" by auto
    with Cons assms(1) show ?thesis
      by (auto simp: py_int_def dest: unsigned_int_nonneg split: if_splits)
  qed
qed

lemma int_or_zero_nonneg: "int_or_zero s = Inr n \<Longrightarrow> CHR ''-'' \<notin> set s \<Longrightarrow> 0 \<le> n"
  by (auto simp: int_or_zero_def dest: py_int_nonneg split: if_splits)

lemma parse_range_header_no_dash:
  "CHR ''-'' \<notin> set h \<Longrightarrow> parse_range_header h = Inr (- 1, - 1)"
  by (simp add: parse_range_header_def split_once_def header_body_dash)

lemma parse_range_header_dash:
  assumes "CHR ''-'' \<in> set h"
  shows "parse_range_header h \<noteq> Inr (- 1, - 1)"
proof
  assume eq: "parse_range_header h = Inr (- 1, - 1)"
  let ?b = "removeprefix ''bytes='' (strip h)"
  let ?a = "takeWhile (\<lambda>c. c \<noteq> CHR ''-'') ?b"
  from assms have "CHR ''-'' \<in> set ?b" by (simp add: header_body_dash)
  with eq have "and_then (int_or_zero ?a) (\<lambda>a.
       and_then (int_or_zero (tl (dropWhile (\<lambda>c. c \<noteq> CHR ''-'') ?b))) (\<lambda>b. Inr (a, b)))
       = Inr (- 1, - 1)"
    by (simp add: parse_range_header_def split_once_def)
  then have "int_or_zero ?a = Inr (- 1)"
    by (auto simp: and_then_def split: sum.splits)
  moreover have "CHR ''-'' \<notin> set ?a"
    by (auto dest: set_takeWhileD)
  ultimately have "(0::int) \<le> - 1" by (rule int_or_zero_nonneg)
  then show False by simp
qed

section \<open>Firmware version normalisation\<close>

text \<open>
  C3, as the code has it.  For every string of three components (no slash inside a
  component), \<open>parse_firmware\<close> returns four components: the fourth is the first,
  and an empty third one is replaced by the first; the other components are kept.
  In particular \<open>"A/B/"\<close> (empty third component) becomes \<open>"A/B/A/A"\<close>.
\<close>

theorem parse_firmware_three_components:
  "(CHR ''/'' \<notin> set a \<and> CHR ''/'' \<notin> set b \<and> CHR ''/'' \<notin> set c \<longrightarrow>
      parse_firmware (a @ ''/'' @ b @ ''/'' @ c) =
      Inr (a @ ''/'' @ b @ ''/'' @ (if c = [] then a else c) @ ''/'' @ a))
   \<and> parse_firmware ''A/B/'' = Inr ''A/B/A/A''"
proof -
  have "parse_firmware ''A/B/'' = Inr ''A/B/A/A''"
    by (simp add: parse_firmware_def getitem_def and_then_simps)
  then show ?thesis
    using parse_firmware_3 [of a b c] by blast
qed

theorem parse_firmware_three_components_witness:
  "CHR ''/'' \<notin> set ''G960FXXU1ASCD'' \<and> CHR ''/'' \<notin> set ''G960FOXM1ASC1''
   \<and> CHR ''/'' \<notin> set []
   \<and> parse_firmware ''G960FXXU1ASCD/G960FOXM1ASC1/'' =
       Inr ''G960FXXU1ASCD/G960FOXM1ASC1/G960FXXU1ASCD/G960FXXU1ASCD''"
  using parse_firmware_three_components [of "''G960FXXU1ASCD''" "''G960FOXM1ASC1''" "[]"]
  by simp

text \<open>
  The example of C3 as the claim writes it: the third component of \<open>"A/B/ "\<close> is one
  space, which is not the empty string, so it is kept.
\<close>

theorem parse_firmware_space_counterexample:
  "parse_firmware ''A/B/ '' = Inr ''A/B/ /A'' \<and> parse_firmware ''A/B/ '' \<noteq> Inr ''A/B/A/A''"
  by (simp add: parse_firmware_def getitem_def and_then_simps)

text \<open>
  C4, as the code has it.  \<open>parse_firmware\<close> does not check the number of components.
  It raises the ValueError of an invalid format for the empty string only.  A
  non-empty string of one or two components raises IndexError (no string is
  returned).  A string of five or more components is returned, with an empty third
  component replaced by the first one and nothing else changed.
\<close>

theorem parse_firmware_component_count:
  "(parse_firmware f = Inl ValueError \<longleftrightarrow> f = [])
   \<and> (CHR ''/'' \<notin> set a \<and> a \<noteq> [] \<longrightarrow> parse_firmware a = Inl IndexError)
   \<and> (CHR ''/'' \<notin> set a \<and> CHR ''/'' \<notin> set b \<longrightarrow>
        parse_firmware (a @ ''/'' @ b) = Inl IndexError)
   \<and> (CHR ''/'' \<notin> set a \<and> CHR ''/'' \<notin> set b \<and> CHR ''/'' \<notin> set c \<longrightarrow>
        parse_firmware (a @ ''/'' @ b @ ''/'' @ c @ ''/'' @ d @ ''/'' @ rest) =
        Inr (a @ ''/'' @ b @ ''/'' @ (if c = [] then a else c) @ ''/'' @ d @ ''/'' @ rest))"
  using parse_firmware_ValueError_iff [of f] parse_firmware_1 [of a]
    parse_firmware_2 [of a b] parse_firmware_4plus [of a b c "d @ ''/'' @ rest"]
  by blast

theorem parse_firmware_component_count_witness:
  "parse_firmware [] = Inl ValueError
   \<and> parse_firmware ''A'' = Inl IndexError
   \<and> parse_firmware ''A/B'' = Inl IndexError
   \<and> parse_firmware ''A/B//D/E/F'' = Inr ''A/B/A/D/E/F''"
  using parse_firmware_component_count [of "[]" "''A''" "''B''" "[]" "''D''" "''E/F''"]
  by simp

text \<open>
  C4 as the claim writes it fails at five components: the string is returned.
\<close>

theorem parse_firmware_five_components_counterexample:
  "length (split CHR ''/'' ''A/B/C/D/E'') = 5
   \<and> parse_firmware ''A/B/C/D/E'' = Inr ''A/B/C/D/E''"
  by (simp add: parse_firmware_def getitem_def and_then_simps)

section \<open>Range headers\<close>

text \<open>
  C8.  \<open>parse_range_header "bytes=0-100"\<close> is \<open>(0, 100)\<close>,
  \<open>parse_range_header "bytes=50-"\<close> is \<open>(50, 0)\<close>, and every header without the
  separator \<open>-\<close> gives the marker \<open>(-1, -1)\<close>.
\<close>

theorem parse_range_header_examples:
  "parse_range_header ''bytes=0-100'' = Inr (0, 100)
   \<and> parse_range_header ''bytes=50-'' = Inr (50, 0)
   \<and> (CHR ''-'' \<notin> set h \<longrightarrow> parse_range_header h = Inr (- 1, - 1))"
proof -
  have "parse_range_header ''bytes=0-100'' = Inr (0, 100)"
    by (simp add: parse_range_header_def strip_def is_space_def removeprefix_def
        split_once_def int_or_zero_def py_int_def int_space_def unsigned_int_def
        is_digit_def digits_val_def ord_def and_then_simps)
  moreover have "parse_range_header ''bytes=50-'' = Inr (50, 0)"
    by (simp add: parse_range_header_def strip_def is_space_def removeprefix_def
        split_once_def int_or_zero_def py_int_def int_space_def unsigned_int_def
        is_digit_def digits_val_def ord_def and_then_simps)
  ultimately show ?thesis
    using parse_range_header_no_dash [of h] by blast
qed

theorem parse_range_header_examples_witness:
  "CHR ''-'' \<notin> set ''bytes=100'' \<and> parse_range_header ''bytes=100'' = Inr (- 1, - 1)"
  using parse_range_header_examples [of "''bytes=100''"] by simp

text \<open>
  C9.  \<open>parse_range_header\<close> returns the marker \<open>(-1, -1)\<close> exactly when the header
  has no separator \<open>-\<close>; a header with the separator and a bound that is not a
  number, such as \<open>"bytes=a-b"\<close>, raises the ValueError of \<open>int\<close> instead.
\<close>

theorem parse_range_header_not_total:
  "(parse_range_header h = Inr (- 1, - 1) \<longleftrightarrow> CHR ''-'' \<notin> set h)
   \<and> CHR ''-'' \<in> set ''bytes=a-b''
   \<and> parse_range_header ''bytes=a-b'' = Inl ValueError"
proof -
  have "parse_range_header ''bytes=a-b'' = Inl ValueError"
    by (simp add: parse_range_header_def strip_def is_space_def removeprefix_def
        split_once_def int_or_zero_def py_int_def int_space_def unsigned_int_def
        is_digit_def and_then_simps)
  then show ?thesis
    using parse_range_header_no_dash [of h] parse_range_header_dash [of h] by auto
qed

theorem parse_range_header_not_total_witness:
  "parse_range_header ''bytes=7'' = Inr (- 1, - 1)
   \<and> parse_range_header ''bytes=7-9'' \<noteq> Inr (- 1, - 1)"
  using parse_range_header_not_total [of "''bytes=7''"]
    parse_range_header_not_total [of "''bytes=7-9''"]
  by simp

section \<open>Decoding the build information\<close>

lemma count_append: "count (xs @ ys) c = count xs c + count ys c"
  by (simp add: count_def)

lemma count_absent: "c \<notin> set xs \<Longrightarrow> count xs c = 0"
  by (induction xs) (auto simp: count_def)

lemma last_n_suffix: "length ys = n \<Longrightarrow> last_n n (xs @ ys) = ys"
  by (simp add: last_n_def)

text \<open>
  C6.  For a firmware string with three slashes, \<open>read_firmware\<close> depends on the
  last six characters \<open>c1 \<dots> c6\<close> of the first component only.  When \<open>c1\<close> is
  \<open>U\<close> or \<open>S\<close> the result is the class code \<open>c1 c2\<close>, \<open>c3 - 'A'\<close>,
  \<open>c4 - 'R' + 2018\<close>, \<open>c5 - 'A'\<close> and the position of \<open>c6\<close> in \<open>0-9A-Z\<close>;
  otherwise the first two results are \<open>None\<close> and the last three characters give
  the year, the month and the revision by the same arithmetic.  (A \<open>c6\<close> outside
  \<open>0-9A-Z\<close> raises the ValueError of \<open>index\<close> in both branches.)
\<close>

theorem read_firmware_decodes_last_six:
  assumes "CHR ''/'' \<notin> set pre" "CHR ''/'' \<notin> set [c1, c2, c3, c4, c5, c6]"
    and "count rest CHR ''/'' = 2"
  shows "read_firmware (pre @ [c1, c2, c3, c4, c5, c6] @ ''/'' @ rest) =
     and_then (index alphanumeric c6) (\<lambda>revision.
       Inr (if c1 = CHR ''U'' \<or> c1 = CHR ''S''
            then (Some [c1, c2], Some (ord c3 - ord CHR ''A''),
                  (ord c4 - ord CHR ''R'') + 2018, ord c5 - ord CHR ''A'', revision)
            else (None, None,
                  (ord c4 - ord CHR ''R'') + 2018, ord c5 - ord CHR ''A'', revision)))"
proof -
  let ?comp = "pre @ [c1, c2, c3, c4, c5, c6]"
  let ?f = "pre @ [c1, c2, c3, c4, c5, c6] @ ''/'' @ rest"
  have f: "?f = ?comp @ CHR ''/'' # rest" by simp
  have nosep: "CHR ''/'' \<notin> set ?comp" using assms(1,2) by auto
  have cnt: "count ?f CHR ''/'' = 3"
  proof -
    have "count ?comp CHR ''/'' = 0" using nosep by (rule count_absent)
    moreover have "count (CHR ''/'' # rest) CHR ''/'' = 3"
      using assms(3) by (simp add: count_def)
    ultimately show ?thesis unfolding f by (simp only: count_append)
  qed
  have first: "split CHR ''/'' ?f ! 0 = ?comp"
    unfolding f by (simp only: split_append [OF nosep] nth_Cons_0)
  have pda: "last_n 6 ?comp = [c1, c2, c3, c4, c5, c6]"
    by (rule last_n_suffix) simp
  show ?thesis
    unfolding read_firmware_def cnt first pda
    by (cases "index alphanumeric c6") (simp_all add: Let_def getitem_def and_then_simps)
qed

theorem read_firmware_decodes_last_six_witness:
  "read_firmware ''G960FXXU1ASCD/G960FOXM1ASC1/G960FXXU1ASCD/G960FXXU1ASCD''
     = Inr (Some ''U1'', Some 0, 2019, 2, 13)
   \<and> read_firmware ''N950FXXA2BRC5/N950FOXM2BRC5/N950FXXA2BRC5/N950FXXA2BRC5''
     = Inr (None, None, 2018, 2, 5)"
  using read_firmware_decodes_last_six [of "''G960FXX''"
      "CHR ''U''" "CHR ''1''" "CHR ''A''" "CHR ''S''" "CHR ''C''" "CHR ''D''"
      "''G960FOXM1ASC1/G960FXXU1ASCD/G960FXXU1ASCD''"]
    read_firmware_decodes_last_six [of "''N950FXX''"
      "CHR ''A''" "CHR ''2''" "CHR ''B''" "CHR ''R''" "CHR ''C''" "CHR ''5''"
      "''N950FOXM2BRC5/N950FXXA2BRC5/N950FXXA2BRC5''"]
  by (simp add: count_def index_def alphanumeric_def ord_def and_then_simps)

section \<open>The firmware list\<close>









section \<open>The retry loop of the binary-info lookup\<close>







section \<open>Range validation in the download route\<close>

lemmas range_eval =
  parse_range_header_def strip_def is_space_def removeprefix_def
  split_once_def int_or_zero_def py_int_def int_space_def unsigned_int_def
  is_digit_def digits_val_def ord_def and_then_simps

lemma neofus_path: "join_path [''/neofus/910/'', ''fw.zip.enc4''] = ''/neofus/910/fw.zip.enc4''"
  by (simp add: join_path_def strip_def is_space_def replace_char_def)

text \<open>
  C1, as the code has it.  The route validates the range after the nonce request and
  the file-registration request, once the registration reply has HTTP status 200 and
  protocol status 200.  Then, with decryption enabled, every \<open>Range\<close> header that
  parses to an end offset other than 0 makes the route close the client and raise
  \<open>RANGE_HEADER_INVALID\<close> (416); the ranged download request is not sent.
\<close>

theorem range_invalid_after_registration:
  assumes "decrypt request = Some key"
    and "parse_range_header (case range_header request of None \<Rightarrow> ''bytes=0-'' | Some h \<Rightarrow> h)
           = Inr (start_range, end_range)"
    and "end_range \<noteq> 0"
    and "http_status download_info = 200"
    and "kies_status download_info = Inr 200"
  shows "download_binary request download_info file =
     ([NonceRequest, FileRequest (join_path [''/neofus/910/'', file_name request]), ClientClose],
      Inl (SamfetchException RANGE_HEADER_INVALID 416))"
  using assms by (simp add: download_binary_def Let_def)

theorem range_invalid_after_registration_witness:
  "download_binary
     \<lparr>decrypt = Some ''00ff'', filename_arg = None, range_header = Some ''bytes=5-9'',
      file_name = ''fw.zip.enc4''\<rparr>
     \<lparr>http_status = 200, kies_status = Inr 200\<rparr>
     \<lparr>file_status = 206, content_length = Some ''5'', content_range = None\<rparr> =
   ([NonceRequest, FileRequest ''/neofus/910/fw.zip.enc4'', ClientClose],
    Inl (SamfetchException RANGE_HEADER_INVALID 416))"
proof -
  have p: "parse_range_header ''bytes=5-9'' = Inr (5, 9)"
    by (simp add: range_eval)
  show ?thesis
    using range_invalid_after_registration [of
        "\<lparr>decrypt = Some ''00ff'', filename_arg = None, range_header = Some ''bytes=5-9'',
          file_name = ''fw.zip.enc4''\<rparr>" "''00ff''" 5 9
        "\<lparr>http_status = 200, kies_status = Inr 200\<rparr>"
        "\<lparr>file_status = 206, content_length = Some ''5'', content_range = None\<rparr>"]
    by (simp add: p neofus_path)
qed

text \<open>
  C1 as the claim writes it fails for a request with decryption and the header
  \<open>bytes=0-100\<close>: the nonce request and the file-registration request are sent
  before the range is looked at, and when the registration reply has HTTP status 500
  the route raises \<open>KIES_SERVER_OUTER_ERROR\<close>, not the range error.
\<close>

theorem range_validation_first_counterexample:
  "parse_range_header ''bytes=0-100'' = Inr (0, 100)
   \<and> download_binary
       \<lparr>decrypt = Some ''00ff'', filename_arg = None, range_header = Some ''bytes=0-100'',
        file_name = ''fw.zip.enc4''\<rparr>
       \<lparr>http_status = 200, kies_status = Inr 200\<rparr>
       \<lparr>file_status = 206, content_length = Some ''101'', content_range = None\<rparr> =
     ([NonceRequest, FileRequest ''/neofus/910/fw.zip.enc4'', ClientClose],
      Inl (SamfetchException RANGE_HEADER_INVALID 416))
   \<and> download_binary
       \<lparr>decrypt = Some ''00ff'', filename_arg = None, range_header = Some ''bytes=0-100'',
        file_name = ''fw.zip.enc4''\<rparr>
       \<lparr>http_status = 500, kies_status = Inl XMLParseError\<rparr>
       \<lparr>file_status = 206, content_length = Some ''101'', content_range = None\<rparr> =
     ([NonceRequest, FileRequest ''/neofus/910/fw.zip.enc4''],
      Inl (SamfetchException KIES_SERVER_OUTER_ERROR 500))"
proof -
  have p: "parse_range_header ''bytes=0-100'' = Inr (0, 100)"
    by (simp add: range_eval)
  show ?thesis
    by (simp add: p download_binary_def Let_def neofus_path)
qed

text \<open>
  C10.  An empty bound is read as 0: \<open>bytes=-100\<close> gives \<open>(0, 100)\<close> and
  \<open>bytes=-\<close> gives \<open>(0, 0)\<close>.  So \<open>bytes=0-0\<close> parses to the same pair as the
  open-ended \<open>bytes=0-\<close>, and a request with decryption and the header
  \<open>bytes=0-0\<close> passes the range validation of \<open>download_binary\<close>: after a
  successful registration the ranged download request is sent with that header, and
  the route answers by the status of its reply.
\<close>

theorem empty_bound_is_zero:
  "parse_range_header ''bytes=-100'' = Inr (0, 100)
   \<and> parse_range_header ''bytes=-'' = Inr (0, 0)
   \<and> parse_range_header ''bytes=0-0'' = Inr (0, 0)
   \<and> parse_range_header ''bytes=0-'' = Inr (0, 0)
   \<and> download_binary
        \<lparr>decrypt = Some key, filename_arg = name, range_header = Some ''bytes=0-0'',
         file_name = fw\<rparr>
        \<lparr>http_status = 200, kies_status = Inr 200\<rparr> file =
       (if file_status file \<in> set [200, 206] then
          ([NonceRequest, FileRequest (join_path [''/neofus/910/'', fw]),
            DownloadRequest (join_path [''/neofus/910/'', fw]) (Some ''bytes=0-0'')],
           Inr \<lparr>headers =
                  response_headers
                    \<lparr>decrypt = Some key, filename_arg = name,
                     range_header = Some ''bytes=0-0'', file_name = fw\<rparr> file,
                content_type = ''application/zip'',
                response_status = file_status file\<rparr>)
        else
          ([NonceRequest, FileRequest (join_path [''/neofus/910/'', fw]),
            DownloadRequest (join_path [''/neofus/910/'', fw]) (Some ''bytes=0-0''),
            ClientClose],
           Inl (SamfetchException KIES_SERVER_ERROR (file_status file))))"
proof -
  have a: "parse_range_header ''bytes=-100'' = Inr (0, 100)" by (simp add: range_eval)
  have b: "parse_range_header ''bytes=-'' = Inr (0, 0)" by (simp add: range_eval)
  have c: "parse_range_header ''bytes=0-0'' = Inr (0, 0)" by (simp add: range_eval)
  have d: "parse_range_header ''bytes=0-'' = Inr (0, 0)" by (simp add: range_eval)
  show ?thesis
    by (simp add: a b c d download_binary_def Let_def)
qed

theorem empty_bound_is_zero_witness:
  "download_binary
     \<lparr>decrypt = Some ''00ff'', filename_arg = None, range_header = Some ''bytes=0-0'',
      file_name = ''fw.zip.enc4''\<rparr>
     \<lparr>http_status = 200, kies_status = Inr 200\<rparr>
     \<lparr>file_status = 206, content_length = Some ''1'', content_range = Some ''bytes 0-0/9''\<rparr> =
   ([NonceRequest, FileRequest ''/neofus/910/fw.zip.enc4'',
     DownloadRequest ''/neofus/910/fw.zip.enc4'' (Some ''bytes=0-0'')],
    Inr \<lparr>headers =
           [(''Content-Disposition'', ''attachment; filename='' @ [CHR 0x22] @ ''fw.zip'' @ [CHR 0x22]),
            (''Accept-Ranges'', ''bytes''), (''Connection'', ''keep-alive''),
            (''Content-Range'', ''bytes 0-0/9'')],
         content_type = ''application/zip'', response_status = 206\<rparr>)"
  using empty_bound_is_zero [of "''00ff''" None "''fw.zip.enc4''"
      "\<lparr>file_status = 206, content_length = Some ''1'', content_range = Some ''bytes 0-0/9''\<rparr>"]
  by (simp add: neofus_path response_headers_def remove_sub_def removesuffix_def)


end
